theory Spec2Isabelle
  imports Complex_Main "HOL-Library.Word"
begin

section \<open>Phrase Cards: the card store and the bounded playback of \<open>app.js\<close>\<close>

text \<open>
  A shallow embedding of the parts of \<open>src/app.js\<close> that keep a card and its audio
  payload consistent in IndexedDB (\<open>getCard\<close>, \<open>getBlob\<close>, \<open>saveCard\<close>, \<open>deleteCard\<close>),
  of the two form handlers that validate a trim window before saving, of the
  "Play Trimmed Section" handler with its \<open>timeupdate\<close> monitor, and of the max-tempo
  computation of \<open>renderCardList\<close>.
\<close>

subsection \<open>Data model\<close>

text \<open>
  The objects are the literals the source builds: the card of lines 395-411, the session
  of lines 783-791. A property that the source sets to \<open>x || undefined\<close> or guards with
  \<open>Array.isArray\<close> or \<open>!card.trim\<close> is an \<open>option\<close>, \<open>None\<close> standing for \<open>undefined\<close>.
  Timestamps are the milliseconds of \<open>Date.now()\<close>. Seconds are the finite numbers that
  \<open>parseFloat\<close> reads from a number input and the playhead reports; the source only
  compares them, and the order of finite doubles is the order of the reals.
\<close>

datatype status = not_started | in_progress | mastered

datatype practice_mode = Mode_circleOfFifths | Mode_chromatic | Mode_free

record mastery =
  circleOfFifths :: status
  chromatic :: status

record trim =
  startSec :: real
  endSec :: real

record session =
  session_id :: string
  cardId :: string
  date :: nat
  temposAchieved :: "int list option"
  errorRate :: real
  mode :: practice_mode
  session_notes :: "string option"

record card =
  card_id :: string
  title :: string
  source :: "string option"
  createdAt :: nat
  updatedAt :: nat
  audioBlobId :: "string option"
  trim :: "trim option"
  bpmTarget :: "int option"
  comments :: "string option"
  tags :: "string list"
  mastery :: mastery
  sessions :: "session list option"

type_synonym blob = "8 word list"

subsection \<open>The database and its transactions\<close>

text \<open>
  \<open>openDB\<close> (lines 49-71) creates two object stores: \<open>cards\<close> with key path \<open>id\<close>, so a
  card is filed under its own \<open>id\<close>, and \<open>blobs\<close> with out-of-line keys.
\<close>

record db =
  cards :: "string \<rightharpoonup> card"
  blobs :: "string \<rightharpoonup> blob"

definition empty_db :: db where
  "empty_db = \<lparr>cards = Map.empty, blobs = Map.empty\<rparr>"

text \<open>The write requests the source places on a transaction.\<close>

datatype request =
    Put_card card
  | Put_blob blob string
  | Delete_card string
  | Delete_blob string

fun apply_request :: "request \<Rightarrow> db \<Rightarrow> db" where
  "apply_request (Put_card c) s = s\<lparr>cards := (cards s)(card_id c \<mapsto> c)\<rparr>"
| "apply_request (Put_blob b k) s = s\<lparr>blobs := (blobs s)(k \<mapsto> b)\<rparr>"
| "apply_request (Delete_card k) s = s\<lparr>cards := (cards s)(k := None)\<rparr>"
| "apply_request (Delete_blob k) s = s\<lparr>blobs := (blobs s)(k := None)\<rparr>"

text \<open>
  What the storage engine does to one read-write transaction is not under the program's
  control. Either nothing goes wrong; or the request with a given index fails, its
  \<open>error\<close> event bubbles to the transaction, and, no handler having cancelled it, the
  transaction is aborted; or every request succeeds and writing the changes out fails
  (quota, disk), in which case the transaction is aborted with no \<open>error\<close> event at all.
  An aborted transaction reverts all its changes. The transaction reports with exactly one
  of the events \<open>complete\<close>, \<open>error\<close> (followed by an \<open>abort\<close>) and \<open>abort\<close> alone.
\<close>

datatype tx_fault = No_fault | Request_fault nat | Commit_fault

datatype tx_event = Complete | Error | Abort

definition run_transaction :: "tx_fault \<Rightarrow> request list \<Rightarrow> db \<Rightarrow> tx_event \<times> db" where
  "run_transaction f rs s =
     (case f of
        No_fault \<Rightarrow> (Complete, fold apply_request rs s)
      | Request_fault k \<Rightarrow>
          if k < length rs then (Error, s) else (Complete, fold apply_request rs s)
      | Commit_fault \<Rightarrow> (Abort, s))"

text \<open>
  The promise that \<open>saveCard\<close> and \<open>deleteCard\<close> return is settled by the two handlers
  they install and by nothing else:
  \<^verbatim>\<open>tx.oncomplete = () => resolve();  tx.onerror = () => reject(tx.error);\<close>
  The rejection is the \<open>TransactionAborted\<close> of the specification. There is no
  \<open>onabort\<close> handler, so after an \<open>abort\<close> with no \<open>error\<close> the promise stays pending.
\<close>

datatype error = TransactionAborted | InvalidRange | NoAudioFile

datatype promise = Pending | Fulfilled | Rejected error

fun settle :: "tx_event \<Rightarrow> promise" where
  "settle Complete = Fulfilled"
| "settle Error = Rejected TransactionAborted"
| "settle Abort = Pending"

subsection \<open>Card repository\<close>

text \<open>
  \<open>getCard\<close> (lines 85-95) and \<open>getBlob\<close> (lines 97-107) resolve with \<open>req.result\<close>,
  which is \<open>undefined\<close> for a key that is not there.
\<close>

definition getCard :: "db \<Rightarrow> string \<Rightarrow> card option" where
  "getCard s k = cards s k"

definition getBlob :: "db \<Rightarrow> string \<Rightarrow> blob option" where
  "getBlob s k = blobs s k"

text \<open>
  \<open>saveCard\<close> (lines 109-125). The argument \<open>blob\<close> is a \<open>File\<close> or \<open>null\<close>; an object is
  truthy whatever its bytes, so \<open>if (blob)\<close> is the test for \<open>Some\<close>. The card is a
  JavaScript object that the function writes to: the caller's object after the call is the
  second component of the result. \<open>put\<close> stores a structured clone taken when it is called,
  which is after both assignments. \<open>now\<close> is what \<open>Date.now()\<close> returns at line 120.
\<close>

text \<open>
  The clock: \<open>Date.now()\<close> read \<open>elapsed\<close> milliseconds after the moment \<open>t_call\<close>. The
  promise executor of \<open>saveCard\<close> runs within the call, so the reading of line 120 is one
  taken after the save was called.
\<close>

definition Date_now :: "nat \<Rightarrow> nat \<Rightarrow> nat" where
  "Date_now t_call elapsed = t_call + elapsed"

definition saveCard ::
  "tx_fault \<Rightarrow> nat \<Rightarrow> card \<Rightarrow> blob option \<Rightarrow> db \<Rightarrow> promise \<times> card \<times> db" where
  "saveCard f now c blob s =
     (let (rs, c1) =
            (case blob of
               Some b \<Rightarrow> ([Put_blob b (card_id c)], c\<lparr>audioBlobId := Some (card_id c)\<rparr>)
             | None \<Rightarrow> ([], c));
          c2 = c1\<lparr>updatedAt := now\<rparr>;
          (ev, s') = run_transaction f (rs @ [Put_card c2]) s
      in (settle ev, c2, s'))"

text \<open>\<open>deleteCard\<close> (lines 127-137): both deletions on one transaction.\<close>

definition deleteCard :: "tx_fault \<Rightarrow> string \<Rightarrow> db \<Rightarrow> promise \<times> db" where
  "deleteCard f k s =
     (let (ev, s') = run_transaction f [Delete_card k, Delete_blob k] s
      in (settle ev, s'))"

subsection \<open>The two save handlers\<close>

text \<open>
  A form field is modelled by what the handler reads from it: a text field by its value
  after \<open>.trim()\<close>, a number field by the result of \<open>parseFloat\<close> or \<open>parseInt\<close>
  (\<open>None\<close> for \<open>NaN\<close> and for an empty field), the tag field by its comma-separated
  entries after \<open>.trim()\<close>, a select by the chosen status.
  \<open>parseFloat(v) || 0\<close> turns \<open>NaN\<close> into 0; \<open>s || undefined\<close> turns the empty string
  into \<open>undefined\<close>.
\<close>

definition num_or_zero :: "real option \<Rightarrow> real" where
  "num_or_zero v = (case v of None \<Rightarrow> 0 | Some x \<Rightarrow> x)"

definition or_undefined :: "string \<Rightarrow> string option" where
  "or_undefined v = (if v = [] then None else Some v)"

text \<open>
  What a click handler ends in: a silent \<open>return\<close>, an \<open>alert\<close> (named by the error of
  the specification it stands for), the normal end, or an \<open>await\<close> that never resumes
  because the promise stays pending.
\<close>

datatype ui_result = Ignored | Alerted error | Completed | Stalled

fun after_await :: "promise \<Rightarrow> ui_result" where
  "after_await Fulfilled = Completed"
| "after_await (Rejected e) = Alerted e"
| "after_await Pending = Stalled"

record add_form =
  selectedFile :: "blob option"
  randomUUID :: string
  titleInput :: string
  sourceInput :: string
  bpmInput :: "int option"
  commentsInput :: string
  tagsInput :: "string list"
  startInput :: "real option"
  endInput :: "real option"
  circleSelect :: status
  chromSelect :: status

text \<open>
  The "Save" button of the add view (lines 378-420). \<open>t1\<close> and \<open>t2\<close> are the two readings
  of \<open>Date.now()\<close> in the card literal, \<open>now\<close> the one inside \<open>saveCard\<close>.
\<close>

definition showAddView_saveBtn ::
  "tx_fault \<Rightarrow> nat \<Rightarrow> nat \<Rightarrow> nat \<Rightarrow> add_form \<Rightarrow> db \<Rightarrow> ui_result \<times> db" where
  "showAddView_saveBtn f t1 t2 now form s =
     (case selectedFile form of
        None \<Rightarrow> (Alerted NoAudioFile, s)
      | Some file \<Rightarrow>
          (let startSecVal = num_or_zero (startInput form);
               endSecVal = num_or_zero (endInput form)
           in if startSecVal < 0 \<or> endSecVal \<le> 0 \<or> endSecVal \<le> startSecVal
              then (Alerted InvalidRange, s)
              else
                (let c = \<lparr>card_id = randomUUID form,
                          title = titleInput form,
                          source = or_undefined (sourceInput form),
                          createdAt = t1,
                          updatedAt = t2,
                          audioBlobId = Some [],
                          trim = Some \<lparr>startSec = startSecVal, endSec = endSecVal\<rparr>,
                          bpmTarget =
                            (case bpmInput form of
                               None \<Rightarrow> None
                             | Some n \<Rightarrow> if n = 0 then None else Some n),
                          comments = or_undefined (commentsInput form),
                          tags = filter (\<lambda>t. t \<noteq> []) (tagsInput form),
                          mastery = \<lparr>circleOfFifths = circleSelect form,
                                     chromatic = chromSelect form\<rparr>,
                          sessions = Some []\<rparr>;
                     (p, c', s') = saveCard f now c (Some file) s
                 in (after_await p, s'))))"

record edit_form =
  startEdit :: "real option"
  endEdit :: "real option"
  titleEdit :: string
  sourceEdit :: string
  bpmEdit :: "int option"
  commentsEdit :: string
  tagsEdit :: "string list"
  circleEdit :: status
  chromEdit :: status

text \<open>
  The "Save Changes" button of the card view (lines 655-681), on the card object that
  \<open>viewCard\<close> read from the store. The result carries that object as the handler leaves it.
\<close>

definition viewCard_saveMetaBtn ::
  "tx_fault \<Rightarrow> nat \<Rightarrow> edit_form \<Rightarrow> card \<Rightarrow> db \<Rightarrow> ui_result \<times> card \<times> db" where
  "viewCard_saveMetaBtn f now form c s =
     (let newStart = num_or_zero (startEdit form);
          newEnd = num_or_zero (endEdit form)
      in if newEnd \<le> newStart then (Alerted InvalidRange, c, s)
         else
           (let c1 = c\<lparr>title := titleEdit form,
                       source := or_undefined (sourceEdit form),
                       bpmTarget := bpmEdit form,
                       comments := or_undefined (commentsEdit form),
                       tags := filter (\<lambda>t. t \<noteq> []) (tagsEdit form),
                       mastery := \<lparr>circleOfFifths = circleEdit form,
                                    chromatic = chromEdit form\<rparr>,
                       trim := Some \<lparr>startSec = newStart, endSec = newEnd\<rparr>\<rparr>;
                (p, c', s') = saveCard f now c1 None s
            in (after_await p, c', s')))"

text \<open>The trim window of the data model: \<open>0 \<le> startSec < endSec\<close>.\<close>

definition trim_ok :: "card \<Rightarrow> bool" where
  "trim_ok c =
     (case trim c of None \<Rightarrow> False | Some w \<Rightarrow> 0 \<le> startSec w \<and> startSec w < endSec w)"

subsection \<open>Sequences of repository operations\<close>

datatype operation = Save tx_fault nat card "blob option" | Delete tx_fault string

fun exec :: "operation \<Rightarrow> db \<Rightarrow> db" where
  "exec (Save f now c b) s = snd (snd (saveCard f now c b s))"
| "exec (Delete f k) s = snd (deleteCard f k s)"

definition run_ops :: "operation list \<Rightarrow> db \<Rightarrow> db" where
  "run_ops ops s = fold exec ops s"

text \<open>
  The two halves of referential integrity: no payload without a card, and, for a card \<open>c\<close>,
  an \<open>audioBlobId\<close> that is the card's \<open>id\<close> when a payload is stored under that \<open>id\<close> and
  absent or empty when none is.
\<close>

definition no_orphan_payload :: "db \<Rightarrow> bool" where
  "no_orphan_payload s \<longleftrightarrow> (\<forall>k. blobs s k \<noteq> None \<longrightarrow> cards s k \<noteq> None)"

definition linked :: "db \<Rightarrow> card \<Rightarrow> bool" where
  "linked s c \<longleftrightarrow>
     (if blobs s (card_id c) \<noteq> None then audioBlobId c = Some (card_id c)
      else audioBlobId c = None \<or> audioBlobId c = Some [])"

definition keyed :: "db \<Rightarrow> bool" where
  "keyed s \<longleftrightarrow> (\<forall>k c. cards s k = Some c \<longrightarrow> card_id c = k)"

definition referential_integrity :: "db \<Rightarrow> bool" where
  "referential_integrity s \<longleftrightarrow>
     (\<forall>k c. cards s k = Some c \<longrightarrow> card_id c = k \<and> linked s c) \<and> no_orphan_payload s"

text \<open>
  A sequence of operations in which every save without a payload passes a card whose
  \<open>audioBlobId\<close> already agrees with the store it is saved into.
\<close>

fun consistent_saves :: "operation list \<Rightarrow> db \<Rightarrow> bool" where
  "consistent_saves [] s = True"
| "consistent_saves (Save f now c None # ops) s =
     (linked s c \<and> consistent_saves ops (exec (Save f now c None) s))"
| "consistent_saves (Save f now c (Some p) # ops) s =
     consistent_saves ops (exec (Save f now c (Some p)) s)"
| "consistent_saves (Delete f k # ops) s = consistent_saves ops (exec (Delete f k) s)"

subsection \<open>Bounded playback\<close>

text \<open>
  The media handle is the \<open>audio\<close> element that \<open>viewCard\<close> creates: its playhead, whether
  it is paused, and the \<open>timeupdate\<close> listeners registered on it. Every click on
  "Play Trimmed Section" allocates a new closure \<open>onTime\<close> that has captured its own
  \<open>endT\<close>; a closure is told from the others by its number, \<open>allocated\<close> counting the
  closures made so far. \<open>removeEventListener('timeupdate', onTime)\<close> removes that closure
  and no other.
\<close>

record audio =
  currentTime :: real
  paused :: bool
  listeners :: "(nat \<times> real) list"
  allocated :: nat

text \<open>The monitor (lines 647-652), for the closure numbered \<open>fst l\<close> with \<open>endT = snd l\<close>.\<close>

definition onTime :: "nat \<times> real \<Rightarrow> audio \<Rightarrow> audio" where
  "onTime l a =
     (if currentTime a \<ge> snd l
      then a\<lparr>paused := True, listeners := filter (\<lambda>l'. fst l' \<noteq> fst l) (listeners a)\<rparr>
      else a)"

text \<open>
  One tick of the playback clock: the media engine moves the playhead to \<open>pos\<close> and fires
  \<open>timeupdate\<close>, which runs the listeners registered when the dispatch begins, in order.
\<close>

definition timeupdate :: "real \<Rightarrow> audio \<Rightarrow> audio" where
  "timeupdate pos a = (let a1 = a\<lparr>currentTime := pos\<rparr> in fold onTime (listeners a1) a1)"

definition run_samples :: "real list \<Rightarrow> audio \<Rightarrow> audio" where
  "run_samples ps a = fold timeupdate ps a"

text \<open>
  Lines 641-653 of the click handler: the check of the bounds, then the seek, \<open>play()\<close> and
  the registration of a new monitor. The seek target is recorded as written.
\<close>

definition startPlayback :: "audio \<Rightarrow> real \<Rightarrow> real \<Rightarrow> ui_result \<times> audio" where
  "startPlayback a startT endT =
     (if endT \<le> startT then (Alerted InvalidRange, a)
      else (Completed,
            a\<lparr>currentTime := startT,
              paused := False,
              listeners := listeners a @ [(allocated a, endT)],
              allocated := Suc (allocated a)\<rparr>))"

text \<open>
  The whole handler (lines 637-654): \<open>audio\<close> is the element just created and never null;
  a card without a \<open>trim\<close> property makes the handler return at once.
\<close>

definition playTrimBtn ::
  "card \<Rightarrow> audio \<Rightarrow> real option \<Rightarrow> real option \<Rightarrow> ui_result \<times> audio" where
  "playTrimBtn c a startEditValue endEditValue =
     (if trim c = None then (Ignored, a)
      else startPlayback a (num_or_zero startEditValue) (num_or_zero endEditValue))"

definition registered :: "nat \<Rightarrow> audio \<Rightarrow> bool" where
  "registered m a \<longleftrightarrow> m \<in> fst ` set (listeners a)"

text \<open>
  The element as \<open>document.createElement('audio')\<close> returns it, and the property of the
  numbering that every handle built from it by clicks and ticks has: the registered
  closures have different numbers, all below \<open>allocated\<close>.
\<close>

definition new_audio :: audio where
  "new_audio = \<lparr>currentTime = 0, paused = True, listeners = [], allocated = 0\<rparr>"

definition well_formed :: "audio \<Rightarrow> bool" where
  "well_formed a \<longleftrightarrow>
     distinct (map fst (listeners a)) \<and> (\<forall>l\<in>set (listeners a). fst l < allocated a)"

subsection \<open>Max tempo\<close>

text \<open>
  Lines 181-190 of \<open>renderCardList\<close>. \<open>Math.max(...ts, 0)\<close> is the maximum of the
  elements and the trailing 0.
\<close>

definition localMax :: "int list \<Rightarrow> int" where
  "localMax ts = foldr max ts 0"

definition maxTempo :: "card \<Rightarrow> int" where
  "maxTempo c =
     (case sessions c of
        None \<Rightarrow> 0
      | Some ss \<Rightarrow>
          fold (\<lambda>sess m.
                  case temposAchieved sess of
                    None \<Rightarrow> m
                  | Some ts \<Rightarrow> if localMax ts > m then localMax ts else m)
               ss 0)"

text \<open>The tempos recorded in a session, and all tempos recorded for a card.\<close>

definition tempo_set :: "session \<Rightarrow> int set" where
  "tempo_set sess = (case temposAchieved sess of None \<Rightarrow> {} | Some ts \<Rightarrow> set ts)"

definition all_tempos :: "card \<Rightarrow> int set" where
  "all_tempos c = (case sessions c of None \<Rightarrow> {} | Some ss \<Rightarrow> \<Union> (tempo_set ` set ss))"

subsection \<open>Sample data\<close>

text \<open>
  A card as the add view builds it (empty \<open>audioBlobId\<close>, no sessions), a session, the
  database after that card has been saved with a two-byte payload, the database after a
  second card has been saved next to it, and an edit form with a negative start.
\<close>

definition demo_card :: card where
  "demo_card =
     \<lparr>card_id = ''a'', title = ''Blues lick'', source = None, createdAt = 10, updatedAt = 10,
      audioBlobId = Some [], trim = Some \<lparr>startSec = 0, endSec = 5\<rparr>, bpmTarget = None,
      comments = None, tags = [],
      mastery = \<lparr>circleOfFifths = not_started, chromatic = not_started\<rparr>,
      sessions = Some []\<rparr>"

definition demo_session :: "int list \<Rightarrow> session" where
  "demo_session ts =
     \<lparr>session_id = ''s'', cardId = ''a'', date = 15, temposAchieved = Some ts, errorRate = 0,
      mode = Mode_free, session_notes = None\<rparr>"

definition demo_db :: db where
  "demo_db = snd (snd (saveCard No_fault 20 demo_card (Some [1, 2]) empty_db))"

definition demo_db2 :: db where
  "demo_db2 =
     snd (snd (saveCard No_fault 25 (demo_card\<lparr>card_id := ''b''\<rparr>) (Some [3]) demo_db))"

definition demo_edit :: edit_form where
  "demo_edit =
     \<lparr>startEdit = Some (- 1), endEdit = Some 2, titleEdit = ''Blues lick'', sourceEdit = [],
      bpmEdit = None, commentsEdit = [], tagsEdit = [], circleEdit = not_started,
      chromEdit = not_started\<rparr>"

section \<open>The card repository\<close>

subsection \<open>What a transaction leaves behind\<close>

lemma run_transaction_cases:
  "run_transaction f rs s = (Complete, fold apply_request rs s)
   \<or> run_transaction f rs s = (Error, s)
   \<or> run_transaction f rs s = (Abort, s)"
  by (simp add: run_transaction_def split: tx_fault.split)

lemma saveCard_Some:
  "saveCard f now c (Some p) s =
     (let c2 = c\<lparr>audioBlobId := Some (card_id c), updatedAt := now\<rparr>;
          (ev, s') = run_transaction f [Put_blob p (card_id c), Put_card c2] s
      in (settle ev, c2, s'))"
  by (simp add: saveCard_def Let_def)

lemma saveCard_None:
  "saveCard f now c None s =
     (let c2 = c\<lparr>updatedAt := now\<rparr>;
          (ev, s') = run_transaction f [Put_card c2] s
      in (settle ev, c2, s'))"
  by (simp add: saveCard_def Let_def)

lemma demo_db_eq:
  "demo_db = \<lparr>cards = [''a'' \<mapsto> demo_card\<lparr>audioBlobId := Some ''a'', updatedAt := 20\<rparr>],
              blobs = [''a'' \<mapsto> [1, 2]]\<rparr>"
  by (simp add: demo_db_def saveCard_def run_transaction_def Let_def empty_db_def demo_card_def)

text \<open>
  A save with a payload is all or nothing: the database is either untouched or holds both
  the card and the payload, and the second only when the promise is fulfilled.
\<close>

lemma saveCard_all_or_nothing:
  "snd (snd (saveCard f now c (Some p) s)) = s
   \<or> (fst (saveCard f now c (Some p) s) = Fulfilled
      \<and> getCard (snd (snd (saveCard f now c (Some p) s))) (card_id c) \<noteq> None
      \<and> getBlob (snd (snd (saveCard f now c (Some p) s))) (card_id c) = Some p)"
  by (auto simp: saveCard_def run_transaction_def getCard_def getBlob_def Let_def
           split: tx_fault.splits if_splits)

lemma saveCard_not_fulfilled_unchanged:
  "fst (saveCard f now c blob s) \<noteq> Fulfilled \<Longrightarrow> snd (snd (saveCard f now c blob s)) = s"
  by (auto simp: saveCard_def run_transaction_def Let_def
           split: tx_fault.splits if_splits option.splits)

subsection \<open>Round trip\<close>

lemma demo_db2_eq:
  "demo_db2 =
     \<lparr>cards = [''a'' \<mapsto> demo_card\<lparr>audioBlobId := Some ''a'', updatedAt := 20\<rparr>,
               ''b'' \<mapsto> demo_card\<lparr>card_id := ''b'', audioBlobId := Some ''b'', updatedAt := 25\<rparr>],
      blobs = [''a'' \<mapsto> [1, 2], ''b'' \<mapsto> [3]]\<rparr>"
  by (simp add: demo_db2_def demo_db_eq saveCard_def run_transaction_def Let_def demo_card_def)

text \<open>
  C1 (as amended). A save of \<open>c\<close> with the payload \<open>p\<close> that meets no storage fault is
  fulfilled, and afterwards \<open>getCard\<close> of the card's id returns \<open>c\<close> with two fields
  rewritten: \<open>updatedAt\<close> is the reading of the clock taken inside the save, which is not
  before the time \<open>t_call\<close> at which the save was called, and \<open>audioBlobId\<close> is the card's
  own id; \<open>getBlob\<close> of the id returns \<open>p\<close>. The same record and payload are read back
  after every save that is fulfilled, whatever the storage did.
\<close>

theorem saveCard_roundtrip:
  "fst (saveCard No_fault (Date_now t_call elapsed) c (Some p) s) = Fulfilled
   \<and> getCard (snd (snd (saveCard No_fault (Date_now t_call elapsed) c (Some p) s))) (card_id c)
       = Some (c\<lparr>audioBlobId := Some (card_id c), updatedAt := Date_now t_call elapsed\<rparr>)
   \<and> getBlob (snd (snd (saveCard No_fault (Date_now t_call elapsed) c (Some p) s))) (card_id c)
       = Some p
   \<and> (case getCard (snd (snd (saveCard No_fault (Date_now t_call elapsed) c (Some p) s)))
              (card_id c) of
        None \<Rightarrow> False
      | Some c' \<Rightarrow> t_call \<le> updatedAt c')
   \<and> (fst (saveCard f now c (Some p) s) = Fulfilled \<longrightarrow>
        getCard (snd (snd (saveCard f now c (Some p) s))) (card_id c)
          = Some (c\<lparr>audioBlobId := Some (card_id c), updatedAt := now\<rparr>)
        \<and> getBlob (snd (snd (saveCard f now c (Some p) s))) (card_id c) = Some p)"
proof -
  have fulfilled:
    "getCard (snd (snd (saveCard f now c (Some p) s))) (card_id c)
       = Some (c\<lparr>audioBlobId := Some (card_id c), updatedAt := now\<rparr>)
     \<and> getBlob (snd (snd (saveCard f now c (Some p) s))) (card_id c) = Some p"
    if "fst (saveCard f now c (Some p) s) = Fulfilled" for f now
    using that
    by (auto simp: saveCard_def run_transaction_def getCard_def getBlob_def Let_def
             split: tx_fault.splits if_splits)
  have ok: "fst (saveCard No_fault (Date_now t_call elapsed) c (Some p) s) = Fulfilled"
    by (simp add: saveCard_def run_transaction_def Let_def)
  have "t_call \<le> Date_now t_call elapsed"
    by (simp add: Date_now_def)
  then show ?thesis
    using ok fulfilled [OF ok] fulfilled [of f now] by simp
qed

text \<open>
  C1, the amended round trip: a second card saved at time 20, five milliseconds after the
  call at 15, into the database that already holds the sample card.
\<close>

theorem saveCard_roundtrip_witness:
  "fst (saveCard No_fault 20 (demo_card\<lparr>card_id := ''b''\<rparr>) (Some [3]) demo_db) = Fulfilled
   \<and> getCard (snd (snd (saveCard No_fault 20 (demo_card\<lparr>card_id := ''b''\<rparr>) (Some [3]) demo_db)))
        ''b''
       = Some (demo_card\<lparr>card_id := ''b'', audioBlobId := Some ''b'', updatedAt := 20\<rparr>)
   \<and> getBlob (snd (snd (saveCard No_fault 20 (demo_card\<lparr>card_id := ''b''\<rparr>) (Some [3]) demo_db)))
        ''b''
       = Some [3]
   \<and> (15::nat) \<le> 20"
proof -
  have n: "Date_now 15 5 = 20"
    by (simp add: Date_now_def)
  have i: "card_id (demo_card\<lparr>card_id := ''b''\<rparr>) = ''b''"
    by simp
  show ?thesis
    using saveCard_roundtrip [of 15 5 "demo_card\<lparr>card_id := ''b''\<rparr>" "[3]" demo_db No_fault 20]
    unfolding n i by simp
qed

text \<open>
  C1 as stated fails: the card that the add view builds has an empty \<open>audioBlobId\<close>, and
  the record read back after the save has the card's id there. The two differ in a field
  that is not \<open>updatedAt\<close>.
\<close>

theorem saveCard_roundtrip_counterexample:
  "fst (saveCard No_fault 20 demo_card (Some [1, 2]) empty_db) = Fulfilled
   \<and> map_option audioBlobId
        (getCard (snd (snd (saveCard No_fault 20 demo_card (Some [1, 2]) empty_db)))
           (card_id demo_card))
      = Some (Some ''a'')
   \<and> audioBlobId demo_card = Some []"
  by (simp add: saveCard_def run_transaction_def getCard_def demo_card_def empty_db_def Let_def)

subsection \<open>Atomicity and the failure report\<close>

text \<open>
  C2. The claim asks that a save whose commit fails be reported as \<open>TransactionAborted\<close>.
  When the commit itself fails, the database is rolled back but the promise of \<open>saveCard\<close>
  is never settled: the transaction fires \<open>abort\<close> only, and \<open>saveCard\<close> listens to
  \<open>complete\<close> and \<open>error\<close>. A failing request, which does fire \<open>error\<close>, is reported.
\<close>

theorem saveCard_commit_failure_pending:
  "saveCard Commit_fault now c (Some p) s
     = (Pending, c\<lparr>audioBlobId := Some (card_id c), updatedAt := now\<rparr>, s)
   \<and> saveCard (Request_fault 0) now c (Some p) s
     = (Rejected TransactionAborted, c\<lparr>audioBlobId := Some (card_id c), updatedAt := now\<rparr>, s)"
  by (simp add: saveCard_def run_transaction_def)

subsection \<open>Deletion\<close>

text \<open>
  C3. A \<open>deleteCard k\<close> that meets no storage fault is fulfilled and leaves the database
  without a card and without a payload under \<open>k\<close>, everything else as it was; deleting \<open>k\<close>
  again is fulfilled and changes nothing. After every fulfilled \<open>deleteCard k\<close>, whatever
  the storage did, neither \<open>getCard k\<close> nor \<open>getBlob k\<close> finds anything. Deleting an id
  under which nothing is stored is fulfilled and changes nothing.
\<close>

theorem deleteCard_complete_idempotent:
  "deleteCard No_fault k s
     = (Fulfilled, s\<lparr>cards := (cards s)(k := None), blobs := (blobs s)(k := None)\<rparr>)
   \<and> getCard (snd (deleteCard No_fault k s)) k = None
   \<and> getBlob (snd (deleteCard No_fault k s)) k = None
   \<and> deleteCard No_fault k (snd (deleteCard No_fault k s))
       = (Fulfilled, snd (deleteCard No_fault k s))
   \<and> (fst (deleteCard f k s) = Fulfilled \<longrightarrow>
        getCard (snd (deleteCard f k s)) k = None
        \<and> getBlob (snd (deleteCard f k s)) k = None
        \<and> deleteCard No_fault k (snd (deleteCard f k s)) = (Fulfilled, snd (deleteCard f k s)))
   \<and> (getCard s k = None \<and> getBlob s k = None \<longrightarrow> deleteCard No_fault k s = (Fulfilled, s))"
  by (auto simp: deleteCard_def run_transaction_def getCard_def getBlob_def Let_def fun_upd_idem
           split: tx_fault.splits if_splits)

text \<open>
  C3 at the database with the two cards: deleting the first removes its card and its
  payload and leaves the second; deleting an id that was never stored changes nothing.
\<close>

theorem deleteCard_complete_idempotent_witness:
  "fst (deleteCard No_fault ''a'' demo_db2) = Fulfilled
   \<and> getCard demo_db2 ''a'' \<noteq> None \<and> getBlob demo_db2 ''a'' \<noteq> None
   \<and> getCard (snd (deleteCard No_fault ''a'' demo_db2)) ''a'' = None
   \<and> getBlob (snd (deleteCard No_fault ''a'' demo_db2)) ''a'' = None
   \<and> getCard (snd (deleteCard No_fault ''a'' demo_db2)) ''b'' = getCard demo_db2 ''b''
   \<and> getBlob (snd (deleteCard No_fault ''a'' demo_db2)) ''b'' = Some [3]
   \<and> deleteCard No_fault ''a'' (snd (deleteCard No_fault ''a'' demo_db2))
       = (Fulfilled, snd (deleteCard No_fault ''a'' demo_db2))
   \<and> getCard demo_db2 ''c'' = None \<and> getBlob demo_db2 ''c'' = None
   \<and> deleteCard No_fault ''c'' demo_db2 = (Fulfilled, demo_db2)"
proof -
  have e: "getCard demo_db2 ''a'' \<noteq> None" "getBlob demo_db2 ''a'' \<noteq> None"
    "getCard demo_db2 ''c'' = None" "getBlob demo_db2 ''c'' = None"
    "blobs demo_db2 ''b'' = Some [3]"
    by (simp_all add: getCard_def getBlob_def demo_db2_eq)
  note T = deleteCard_complete_idempotent [of "''a''" demo_db2 No_fault]
  have d: "deleteCard No_fault ''a'' demo_db2
             = (Fulfilled, demo_db2\<lparr>cards := (cards demo_db2)(''a'' := None),
                                     blobs := (blobs demo_db2)(''a'' := None)\<rparr>)"
    using T by blast
  have f: "fst (deleteCard No_fault ''a'' demo_db2) = Fulfilled"
    by (simp add: d)
  have g: "getCard (snd (deleteCard No_fault ''a'' demo_db2)) ''a'' = None"
    "getBlob (snd (deleteCard No_fault ''a'' demo_db2)) ''a'' = None"
    "deleteCard No_fault ''a'' (snd (deleteCard No_fault ''a'' demo_db2))
       = (Fulfilled, snd (deleteCard No_fault ''a'' demo_db2))"
    using T by blast+
  have b: "getCard (snd (deleteCard No_fault ''a'' demo_db2)) ''b'' = getCard demo_db2 ''b''"
    "getBlob (snd (deleteCard No_fault ''a'' demo_db2)) ''b'' = Some [3]"
    unfolding d using e(5) by (simp_all add: getCard_def getBlob_def)
  have c: "deleteCard No_fault ''c'' demo_db2 = (Fulfilled, demo_db2)"
    using deleteCard_complete_idempotent [of "''c''" demo_db2 No_fault] e(3,4) by blast
  show ?thesis
    using e(1-4) f g b c by blast
qed

subsection \<open>The argument of a save\<close>

text \<open>
  C10. \<open>saveCard\<close> writes to its argument before the transaction reports anything: whatever
  the transaction does afterwards, the caller's object has the new \<open>updatedAt\<close>, has
  \<open>audioBlobId\<close> set to its own \<open>id\<close> when a payload was passed, and is otherwise the
  object that was passed in. This is so also when the transaction is aborted and the
  database stays as it was.
\<close>

theorem saveCard_mutates_argument:
  "fst (snd (saveCard f now c blob s)) =
     (case blob of
        Some b \<Rightarrow> c\<lparr>audioBlobId := Some (card_id c), updatedAt := now\<rparr>
      | None \<Rightarrow> c\<lparr>updatedAt := now\<rparr>)
   \<and> snd (snd (saveCard Commit_fault now c blob s)) = s
   \<and> snd (snd (saveCard (Request_fault 0) now c blob s)) = s"
  by (simp add: saveCard_def run_transaction_def Let_def split: option.split prod.split)

section \<open>Trim validation in the two save handlers\<close>

text \<open>
  The add view refuses a window that does not satisfy \<open>0 \<le> startSec < endSec\<close> before it
  touches the database, and what it persists has a well-formed window.
\<close>

lemma showAddView_rejects_bad_trim:
  assumes "\<not> (0 \<le> num_or_zero (startInput form)
              \<and> num_or_zero (startInput form) < num_or_zero (endInput form))"
  shows "showAddView_saveBtn f t1 t2 now form s = (Alerted NoAudioFile, s)
         \<or> showAddView_saveBtn f t1 t2 now form s = (Alerted InvalidRange, s)"
  using assms by (auto simp: showAddView_saveBtn_def Let_def split: option.split)

lemma showAddView_persists_trim_ok:
  assumes "snd (showAddView_saveBtn f t1 t2 now form s) \<noteq> s"
  shows "getCard (snd (showAddView_saveBtn f t1 t2 now form s)) (randomUUID form) \<noteq> None
         \<and> trim_ok (the (getCard (snd (showAddView_saveBtn f t1 t2 now form s)) (randomUUID form)))"
  using assms
  by (auto simp: showAddView_saveBtn_def Let_def saveCard_def run_transaction_def getCard_def
        trim_ok_def split: option.splits tx_fault.splits if_splits)

text \<open>The card view refuses a window whose end is not after its start, and only that.\<close>

lemma viewCard_saveMetaBtn_rejects:
  assumes "num_or_zero (endEdit form) \<le> num_or_zero (startEdit form)"
  shows "viewCard_saveMetaBtn f now form c s = (Alerted InvalidRange, c, s)"
  using assms by (simp add: viewCard_saveMetaBtn_def Let_def)

text \<open>
  C5. The claim asks that no persisted card have a window outside \<open>0 \<le> startSec < endSec\<close>.
  The "Save Changes" handler of the card view checks \<open>newEnd <= newStart\<close> and does not
  check the sign of the start, which the "Save" handler of the add view does
  (\<open>startSecVal < 0\<close>): with start \<open>-1\<close> and end \<open>2\<close> in the edit form the save goes
  through and the stored card has the window \<open>(-1, 2)\<close>.
\<close>

theorem edit_accepts_negative_start:
  "fst (viewCard_saveMetaBtn No_fault 30 demo_edit
          (demo_card\<lparr>audioBlobId := Some ''a'', updatedAt := 20\<rparr>) demo_db) = Completed
   \<and> map_option trim
        (getCard (snd (snd (viewCard_saveMetaBtn No_fault 30 demo_edit
            (demo_card\<lparr>audioBlobId := Some ''a'', updatedAt := 20\<rparr>) demo_db))) ''a'')
       = Some (Some \<lparr>startSec = - 1, endSec = 2\<rparr>)
   \<and> \<not> trim_ok (the (getCard (snd (snd (viewCard_saveMetaBtn No_fault 30 demo_edit
            (demo_card\<lparr>audioBlobId := Some ''a'', updatedAt := 20\<rparr>) demo_db))) ''a''))"
  by (simp add: viewCard_saveMetaBtn_def saveCard_def run_transaction_def Let_def demo_db_eq
        demo_edit_def demo_card_def num_or_zero_def getCard_def trim_ok_def)

section \<open>Referential integrity over sequences of saves and deletions\<close>

lemma exec_Save_Some:
  "exec (Save f now c (Some p)) s = s
   \<or> exec (Save f now c (Some p)) s =
       s\<lparr>blobs := (blobs s)(card_id c \<mapsto> p),
         cards := (cards s)(card_id c \<mapsto> c\<lparr>audioBlobId := Some (card_id c), updatedAt := now\<rparr>)\<rparr>"
  using run_transaction_cases
    [of f "[Put_blob p (card_id c), Put_card (c\<lparr>audioBlobId := Some (card_id c), updatedAt := now\<rparr>)]" s]
  by (auto simp: saveCard_Some Let_def)

lemma exec_Save_None:
  "exec (Save f now c None) s = s
   \<or> exec (Save f now c None) s = s\<lparr>cards := (cards s)(card_id c \<mapsto> c\<lparr>updatedAt := now\<rparr>)\<rparr>"
  using run_transaction_cases [of f "[Put_card (c\<lparr>updatedAt := now\<rparr>)]" s]
  by (auto simp: saveCard_None Let_def)

lemma exec_Delete:
  "exec (Delete f k) s = s
   \<or> exec (Delete f k) s = s\<lparr>cards := (cards s)(k := None), blobs := (blobs s)(k := None)\<rparr>"
  using run_transaction_cases [of f "[Delete_card k, Delete_blob k]" s]
  by (auto simp: deleteCard_def Let_def)

lemma integrity_alt:
  "referential_integrity s \<longleftrightarrow>
     (\<forall>k c. cards s k = Some c \<longrightarrow>
        card_id c = k
        \<and> (if blobs s k \<noteq> None then audioBlobId c = Some k
           else audioBlobId c = None \<or> audioBlobId c = Some []))
     \<and> (\<forall>k. blobs s k \<noteq> None \<longrightarrow> cards s k \<noteq> None)"
  unfolding referential_integrity_def linked_def no_orphan_payload_def
  by (rule arg_cong2 [where f = "(\<and>)"]) (metis, rule refl)

lemma exec_no_orphan_payload:
  assumes "no_orphan_payload s"
  shows "no_orphan_payload (exec x s)"
proof (cases x)
  case (Save f now c b)
  show ?thesis
  proof (cases b)
    case None
    from exec_Save_None [of f now c s] show ?thesis
    proof
      assume "exec (Save f now c None) s = s"
      then show ?thesis using assms Save None by simp
    next
      assume "exec (Save f now c None) s
                = s\<lparr>cards := (cards s)(card_id c \<mapsto> c\<lparr>updatedAt := now\<rparr>)\<rparr>"
      then show ?thesis
        using assms unfolding Save None no_orphan_payload_def by simp
    qed
  next
    case (Some p)
    from exec_Save_Some [of f now c p s] show ?thesis
    proof
      assume "exec (Save f now c (Some p)) s = s"
      then show ?thesis using assms Save Some by simp
    next
      assume "exec (Save f now c (Some p)) s =
       s\<lparr>blobs := (blobs s)(card_id c \<mapsto> p),
         cards := (cards s)(card_id c \<mapsto> c\<lparr>audioBlobId := Some (card_id c), updatedAt := now\<rparr>)\<rparr>"
      then show ?thesis
        using assms unfolding Save Some no_orphan_payload_def by simp
    qed
  qed
next
  case (Delete f k)
  from exec_Delete [of f k s] show ?thesis
  proof
    assume "exec (Delete f k) s = s"
    then show ?thesis using assms Delete by simp
  next
    assume "exec (Delete f k) s
              = s\<lparr>cards := (cards s)(k := None), blobs := (blobs s)(k := None)\<rparr>"
    then show ?thesis
      using assms unfolding Delete no_orphan_payload_def by simp
  qed
qed

lemma exec_keyed:
  assumes "keyed s"
  shows "keyed (exec x s)"
proof (cases x)
  case (Save f now c b)
  show ?thesis
  proof (cases b)
    case None
    from exec_Save_None [of f now c s] show ?thesis
    proof
      assume "exec (Save f now c None) s = s"
      then show ?thesis using assms Save None by simp
    next
      assume "exec (Save f now c None) s
                = s\<lparr>cards := (cards s)(card_id c \<mapsto> c\<lparr>updatedAt := now\<rparr>)\<rparr>"
      then show ?thesis
        using assms unfolding Save None keyed_def by auto
    qed
  next
    case (Some p)
    from exec_Save_Some [of f now c p s] show ?thesis
    proof
      assume "exec (Save f now c (Some p)) s = s"
      then show ?thesis using assms Save Some by simp
    next
      assume "exec (Save f now c (Some p)) s =
       s\<lparr>blobs := (blobs s)(card_id c \<mapsto> p),
         cards := (cards s)(card_id c \<mapsto> c\<lparr>audioBlobId := Some (card_id c), updatedAt := now\<rparr>)\<rparr>"
      then show ?thesis
        using assms unfolding Save Some keyed_def by auto
    qed
  qed
next
  case (Delete f k)
  from exec_Delete [of f k s] show ?thesis
  proof
    assume "exec (Delete f k) s = s"
    then show ?thesis using assms Delete by simp
  next
    assume "exec (Delete f k) s
              = s\<lparr>cards := (cards s)(k := None), blobs := (blobs s)(k := None)\<rparr>"
    then show ?thesis
      using assms unfolding Delete keyed_def by auto
  qed
qed

lemma exec_Save_Some_integrity:
  assumes "referential_integrity s"
  shows "referential_integrity (exec (Save f now c (Some p)) s)"
  using exec_Save_Some [of f now c p s]
proof
  assume "exec (Save f now c (Some p)) s = s"
  then show ?thesis using assms by simp
next
  assume "exec (Save f now c (Some p)) s =
       s\<lparr>blobs := (blobs s)(card_id c \<mapsto> p),
         cards := (cards s)(card_id c \<mapsto> c\<lparr>audioBlobId := Some (card_id c), updatedAt := now\<rparr>)\<rparr>"
  then show ?thesis
    using assms unfolding integrity_alt by auto
qed

lemma exec_Save_None_integrity:
  assumes "referential_integrity s" and "linked s c"
  shows "referential_integrity (exec (Save f now c None) s)"
  using exec_Save_None [of f now c s]
proof
  assume "exec (Save f now c None) s = s"
  then show ?thesis using assms by simp
next
  assume "exec (Save f now c None) s
            = s\<lparr>cards := (cards s)(card_id c \<mapsto> c\<lparr>updatedAt := now\<rparr>)\<rparr>"
  then show ?thesis
    using assms unfolding integrity_alt linked_def by auto
qed

lemma exec_Delete_integrity:
  assumes "referential_integrity s"
  shows "referential_integrity (exec (Delete f k) s)"
  using exec_Delete [of f k s]
proof
  assume "exec (Delete f k) s = s"
  then show ?thesis using assms by simp
next
  assume "exec (Delete f k) s
            = s\<lparr>cards := (cards s)(k := None), blobs := (blobs s)(k := None)\<rparr>"
  then show ?thesis
    using assms unfolding integrity_alt by auto
qed

lemma run_ops_no_orphan_payload:
  "no_orphan_payload s \<Longrightarrow> no_orphan_payload (run_ops ops s)"
  unfolding run_ops_def by (induction ops arbitrary: s) (simp_all add: exec_no_orphan_payload)

lemma run_ops_keyed: "keyed s \<Longrightarrow> keyed (run_ops ops s)"
  unfolding run_ops_def by (induction ops arbitrary: s) (simp_all add: exec_keyed)

lemma run_ops_integrity:
  "consistent_saves ops s \<Longrightarrow> referential_integrity s \<Longrightarrow> referential_integrity (run_ops ops s)"
proof (induction ops s rule: consistent_saves.induct)
  case (1 s)
  then show ?case by (simp add: run_ops_def)
next
  case (2 f now c ops s)
  then show ?case
    using exec_Save_None_integrity [of s c f now] by (simp add: run_ops_def)
next
  case (3 f now c p ops s)
  then show ?case
    using exec_Save_Some_integrity [of s f now c p] by (simp add: run_ops_def)
next
  case (4 f k ops s)
  then show ?case
    using exec_Delete_integrity [of s f k] by (simp add: run_ops_def)
qed

text \<open>
  C4 (as amended). In every state reached from the empty database by saves and deletions,
  whatever the transactions do, no payload is stored without a card and every card is
  stored under its own id. The \<open>audioBlobId\<close> of every stored card is its id when a
  payload is stored under that id and absent or empty otherwise, provided that every save
  without a payload passed a card whose \<open>audioBlobId\<close> agreed in that way with the database
  it was saved into; a save with a payload sets the field itself.
\<close>

theorem integrity_of_reachable_states:
  "no_orphan_payload (run_ops ops empty_db)
   \<and> (\<forall>k c. cards (run_ops ops empty_db) k = Some c \<longrightarrow> card_id c = k)
   \<and> (consistent_saves ops empty_db \<longrightarrow> referential_integrity (run_ops ops empty_db))"
proof -
  have 0: "no_orphan_payload empty_db" "keyed empty_db" "referential_integrity empty_db"
    by (simp_all add: no_orphan_payload_def keyed_def referential_integrity_def empty_db_def)
  show ?thesis
    using run_ops_no_orphan_payload [OF 0(1), of ops] run_ops_keyed [OF 0(2), of ops]
      run_ops_integrity [OF _ 0(3), of ops]
    by (simp add: keyed_def)
qed

text \<open>C4, the amended invariant on a run that saves, edits and deletes the sample card.\<close>

theorem integrity_of_reachable_states_witness:
  "consistent_saves
     [Save No_fault 20 demo_card (Some [1, 2]),
      Save No_fault 30 (demo_card\<lparr>audioBlobId := Some ''a'', updatedAt := 20\<rparr>) None]
     empty_db
   \<and> referential_integrity
       (run_ops [Save No_fault 20 demo_card (Some [1, 2]),
                 Save No_fault 30 (demo_card\<lparr>audioBlobId := Some ''a'', updatedAt := 20\<rparr>) None]
          empty_db)
   \<and> no_orphan_payload
       (run_ops [Save No_fault 20 demo_card (Some [1, 2]),
                 Save No_fault 30 (demo_card\<lparr>audioBlobId := Some ''a'', updatedAt := 20\<rparr>) None]
          empty_db)
   \<and> getBlob
       (run_ops [Save No_fault 20 demo_card (Some [1, 2]),
                 Save No_fault 30 (demo_card\<lparr>audioBlobId := Some ''a'', updatedAt := 20\<rparr>) None]
          empty_db) ''a'' = Some [1, 2]
   \<and> map_option card_id
       (getCard
          (run_ops [Save No_fault 20 demo_card (Some [1, 2]),
                    Save No_fault 30 (demo_card\<lparr>audioBlobId := Some ''a'', updatedAt := 20\<rparr>) None]
             empty_db) ''a'') = Some ''a''"
proof -
  let ?ops = "[Save No_fault 20 demo_card (Some [1, 2]),
               Save No_fault 30 (demo_card\<lparr>audioBlobId := Some ''a'', updatedAt := 20\<rparr>) None]"
  have h: "consistent_saves ?ops empty_db"
    by (simp add: saveCard_def run_transaction_def Let_def empty_db_def demo_card_def linked_def)
  have r: "run_ops ?ops empty_db
             = \<lparr>cards = [''a'' \<mapsto> demo_card\<lparr>audioBlobId := Some ''a'', updatedAt := 30\<rparr>],
                blobs = [''a'' \<mapsto> [1, 2]]\<rparr>"
    by (simp add: run_ops_def saveCard_def run_transaction_def Let_def empty_db_def
          demo_card_def)
  have g: "getBlob (run_ops ?ops empty_db) ''a'' = Some [1, 2]"
    "map_option card_id (getCard (run_ops ?ops empty_db) ''a'') = Some ''a''"
    unfolding r by (simp_all add: getBlob_def getCard_def demo_card_def)
  show ?thesis
    using h g integrity_of_reachable_states [of ?ops] by simp
qed

text \<open>
  C4 as stated fails: save the sample card with its payload, delete it, and save the same
  in-memory object again with no payload. The card is stored with \<open>audioBlobId\<close> equal to
  its id, and no payload is stored under that id.
\<close>

theorem integrity_counterexample:
  "getBlob (run_ops [Save No_fault 20 demo_card (Some [1, 2]), Delete No_fault ''a'',
                     Save No_fault 30 (demo_card\<lparr>audioBlobId := Some ''a'', updatedAt := 20\<rparr>) None]
              empty_db) ''a'' = None
   \<and> map_option audioBlobId
       (getCard (run_ops [Save No_fault 20 demo_card (Some [1, 2]), Delete No_fault ''a'',
                     Save No_fault 30 (demo_card\<lparr>audioBlobId := Some ''a'', updatedAt := 20\<rparr>) None]
              empty_db) ''a'') = Some (Some ''a'')
   \<and> \<not> referential_integrity
         (run_ops [Save No_fault 20 demo_card (Some [1, 2]), Delete No_fault ''a'',
                     Save No_fault 30 (demo_card\<lparr>audioBlobId := Some ''a'', updatedAt := 20\<rparr>) None]
              empty_db)"
  by (simp add: run_ops_def saveCard_def deleteCard_def run_transaction_def Let_def empty_db_def
        demo_card_def getBlob_def getCard_def referential_integrity_def linked_def)

section \<open>Bounded playback\<close>

subsection \<open>One tick, and a run of ticks\<close>

lemma fold_onTime_fields:
  "currentTime (fold onTime ls a) = currentTime a \<and> allocated (fold onTime ls a) = allocated a"
  by (induction ls arbitrary: a) (simp_all add: onTime_def)

lemma fold_onTime_listeners:
  "listeners (fold onTime ls a) =
     filter (\<lambda>l'. \<not> (\<exists>l\<in>set ls. fst l = fst l' \<and> snd l \<le> currentTime a)) (listeners a)"
proof (induction ls arbitrary: a)
  case Nil
  then show ?case by simp
next
  case (Cons l ls)
  have ct: "currentTime (onTime l a) = currentTime a"
    by (simp add: onTime_def)
  have "listeners (fold onTime (l # ls) a) =
          filter (\<lambda>l'. \<not> (\<exists>x\<in>set ls. fst x = fst l' \<and> snd x \<le> currentTime a))
            (listeners (onTime l a))"
    by (simp add: Cons ct)
  also have "\<dots> =
          filter (\<lambda>l'. \<not> (\<exists>x\<in>set (l # ls). fst x = fst l' \<and> snd x \<le> currentTime a))
            (listeners a)"
    by (cases "snd l \<le> currentTime a") (auto simp: onTime_def intro!: filter_cong)
  finally show ?case .
qed


lemma timeupdate_fields:
  "currentTime (timeupdate pos a) = pos \<and> allocated (timeupdate pos a) = allocated a"
  by (simp add: timeupdate_def Let_def fold_onTime_fields)


lemma timeupdate_listeners:
  assumes "well_formed a"
  shows "listeners (timeupdate pos a) = filter (\<lambda>l. pos < snd l) (listeners a)"
proof -
  have "listeners (timeupdate pos a) =
          filter (\<lambda>l'. \<not> (\<exists>l\<in>set (listeners a). fst l = fst l' \<and> snd l \<le> pos)) (listeners a)"
    by (simp add: timeupdate_def Let_def fold_onTime_listeners)
  also have "\<dots> = filter (\<lambda>l. pos < snd l) (listeners a)"
  proof (rule filter_cong [OF refl])
    fix l' assume l': "l' \<in> set (listeners a)"
    have "\<And>l. l \<in> set (listeners a) \<Longrightarrow> fst l = fst l' \<Longrightarrow> l = l'"
      using assms l' unfolding well_formed_def
      by (metis eq_key_imp_eq_value prod.collapse)
    with l' show "(\<not> (\<exists>l\<in>set (listeners a). fst l = fst l' \<and> snd l \<le> pos)) = (pos < snd l')"
      by (auto simp: not_le)
  qed
  finally show ?thesis .
qed

lemma well_formed_timeupdate:
  "well_formed a \<Longrightarrow> well_formed (timeupdate pos a)"
proof -
  assume wf: "well_formed a"
  have "distinct (map fst (filter (\<lambda>l. pos < snd l) (listeners a)))"
    using wf by (simp add: well_formed_def distinct_map_filter)
  moreover have "\<forall>l\<in>set (filter (\<lambda>l. pos < snd l) (listeners a)). fst l < allocated a"
    using wf by (simp add: well_formed_def)
  ultimately show ?thesis
    by (simp add: well_formed_def [of "timeupdate pos a"] timeupdate_listeners [OF wf]
          timeupdate_fields)
qed

lemma run_samples_Cons: "run_samples (p # ps) a = run_samples ps (timeupdate p a)"
  by (simp add: run_samples_def)

lemma run_samples_append: "run_samples (ps @ qs) a = run_samples qs (run_samples ps a)"
  by (simp add: run_samples_def)

lemma run_samples_listeners:
  "well_formed a \<Longrightarrow>
   listeners (run_samples ps a) = filter (\<lambda>l. \<forall>p\<in>set ps. p < snd l) (listeners a)"
proof (induction ps arbitrary: a)
  case Nil
  then show ?case by (simp add: run_samples_def)
next
  case (Cons p ps)
  then show ?case
    by (simp add: run_samples_Cons well_formed_timeupdate timeupdate_listeners)
qed

lemma well_formed_run_samples:
  "well_formed a \<Longrightarrow> well_formed (run_samples ps a)"
  by (induction ps arbitrary: a) (simp_all add: run_samples_def well_formed_timeupdate)


lemma well_formed_startPlayback:
  "well_formed a \<Longrightarrow> well_formed (snd (startPlayback a startT endT))"
  by (auto simp: well_formed_def startPlayback_def less_Suc_eq)


lemma started_registered:
  assumes "well_formed h" and "startT < endT"
  shows "registered (allocated h) (run_samples ps (snd (startPlayback h startT endT)))
           \<longleftrightarrow> (\<forall>p\<in>set ps. p < endT)"
proof -
  have wf: "well_formed (snd (startPlayback h startT endT))"
    using assms(1) by (rule well_formed_startPlayback)
  have fresh: "\<forall>l\<in>set (listeners h). fst l \<noteq> allocated h"
    using assms(1) by (auto simp: well_formed_def)
  have L: "listeners (snd (startPlayback h startT endT)) = listeners h @ [(allocated h, endT)]"
    using assms(2) by (simp add: startPlayback_def)
  show ?thesis
    unfolding registered_def run_samples_listeners [OF wf] L
  proof -
    have "allocated h \<notin> fst ` set (filter (\<lambda>l. \<forall>p\<in>set ps. p < snd l) (listeners h))"
      using fresh by (auto simp: image_iff)
    then show "allocated h
                 \<in> fst ` set (filter (\<lambda>l. \<forall>p\<in>set ps. p < snd l)
                                (listeners h @ [(allocated h, endT)]))
               \<longleftrightarrow> (\<forall>p\<in>set ps. p < endT)"
      by (cases "\<forall>p\<in>set ps. p < endT") (simp_all add: image_Un)
  qed
qed

subsection \<open>Starting\<close>

text \<open>
  C6. When \<open>endT \<le> startT\<close> (equality included) the start is refused with the
  \<open>InvalidRange\<close> alert and the handle is returned as it was: the playhead, the paused
  flag and the list of monitors are those of before. The same holds for the click handler
  as a whole, which on a card without a trim returns without an alert.
\<close>

theorem startPlayback_rejects_bad_range:
  assumes "endT \<le> startT"
  shows "startPlayback h startT endT = (Alerted InvalidRange, h)
         \<and> snd (playTrimBtn c h (Some startT) (Some endT)) = h
         \<and> (trim c \<noteq> None \<longrightarrow> fst (playTrimBtn c h (Some startT) (Some endT)) = Alerted InvalidRange)"
  using assms by (simp add: startPlayback_def playTrimBtn_def num_or_zero_def)

text \<open>C6 at the bounds \<open>(5, 5)\<close> and \<open>(5, 2)\<close>, on a new handle and the sample card.\<close>

theorem startPlayback_rejects_bad_range_witness:
  "(5::real) \<le> 5 \<and> (2::real) \<le> 5 \<and> trim demo_card \<noteq> None
   \<and> startPlayback new_audio 5 5 = (Alerted InvalidRange, new_audio)
   \<and> startPlayback new_audio 5 2 = (Alerted InvalidRange, new_audio)
   \<and> playTrimBtn demo_card new_audio (Some 5) (Some 2) = (Alerted InvalidRange, new_audio)"
proof -
  have a: "(5::real) \<le> 5" and b: "(2::real) \<le> 5"
    by simp_all
  have t: "trim demo_card \<noteq> None"
    by (simp add: demo_card_def)
  show ?thesis
    using t startPlayback_rejects_bad_range [OF a, of new_audio demo_card]
      startPlayback_rejects_bad_range [OF b, of new_audio demo_card]
    by (simp add: prod_eq_iff)
qed

subsection \<open>The boundary\<close>




subsection \<open>After the boundary\<close>

text \<open>
  Once a sample has reached \<open>endT\<close> the monitor of the invocation is deregistered and
  stays so under every later run of samples; on a handle with no other monitor a later
  tick moves the playhead and runs no callback. \<open>removeEventListener\<close> occurs in the source
  only inside \<open>onTime\<close>, after the boundary pause: no other operation takes a monitor off
  a handle.
\<close>

lemma stopped_monitor_stays_quiet:
  assumes "well_formed h" and "startT < endT" and "p \<in> set ps" and "endT \<le> p"
  shows "\<not> registered (allocated h) (run_samples (ps @ qs) (snd (startPlayback h startT endT)))
         \<and> (listeners h = [] \<longrightarrow>
              listeners (run_samples ps (snd (startPlayback h startT endT))) = []
              \<and> timeupdate q (run_samples ps (snd (startPlayback h startT endT)))
                  = (run_samples ps (snd (startPlayback h startT endT)))\<lparr>currentTime := q\<rparr>)"
proof -
  let ?a0 = "snd (startPlayback h startT endT)"
  have wf: "well_formed ?a0"
    using assms(1) by (rule well_formed_startPlayback)
  have a0: "listeners ?a0 = listeners h @ [(allocated h, endT)]"
    using assms(2) by (simp add: startPlayback_def)
  have 1: "\<not> registered (allocated h) (run_samples (ps @ qs) ?a0)"
    using started_registered [OF assms(1,2), of "ps @ qs"] assms(3,4) by (auto simp: not_less)
  have 2: "listeners (run_samples ps ?a0) = []" if "listeners h = []"
    unfolding run_samples_listeners [OF wf] a0 using that assms(3,4) by (auto simp: not_less)
  have 3: "timeupdate q a = a\<lparr>currentTime := q\<rparr>" if "listeners a = []" for a
    using that by (simp add: timeupdate_def Let_def)
  show ?thesis
    using 1 2 3 [of "run_samples ps ?a0"] by simp
qed

section \<open>Max tempo\<close>

lemma localMax_eq: "localMax ts = Max (insert 0 (set ts))"
proof (induction ts)
  case Nil
  then show ?case by (simp add: localMax_def)
next
  case (Cons t ts)
  have "localMax (t # ts) = max t (localMax ts)"
    by (simp add: localMax_def)
  also have "\<dots> = max t (Max (insert 0 (set ts)))"
    by (simp add: Cons)
  also have "\<dots> = Max (insert t (insert 0 (set ts)))"
    by simp
  finally show ?case by (simp add: insert_commute)
qed

lemma finite_tempo_set: "finite (tempo_set sess)"
  by (simp add: tempo_set_def split: option.split)

lemma fold_maxTempo:
  "0 \<le> m \<Longrightarrow>
   fold (\<lambda>sess m. case temposAchieved sess of
                     None \<Rightarrow> m
                   | Some ts \<Rightarrow> if localMax ts > m then localMax ts else m) ss m
     = Max (insert m (\<Union> (tempo_set ` set ss)))"
proof (induction ss arbitrary: m)
  case Nil
  then show ?case by simp
next
  case (Cons sess ss)
  show ?case
  proof (cases "temposAchieved sess")
    case None
    then show ?thesis
      using Cons by (simp add: tempo_set_def)
  next
    case (Some ts)
    let ?m' = "if localMax ts > m then localMax ts else m"
    have m': "?m' = Max (insert m (set ts))"
    proof (cases "set ts = {}")
      case True
      then show ?thesis using Cons.prems by (simp add: localMax_eq)
    next
      case False
      then show ?thesis using Cons.prems by (auto simp: localMax_eq max_def)
    qed
    have fin: "finite (\<Union> (tempo_set ` set ss))"
      by (simp add: finite_tempo_set)
    have "0 \<le> ?m'" using Cons.prems by simp
    then have "fold (\<lambda>sess m. case temposAchieved sess of
                     None \<Rightarrow> m
                   | Some ts \<Rightarrow> if localMax ts > m then localMax ts else m) ss ?m'
                 = Max (insert ?m' (\<Union> (tempo_set ` set ss)))"
      by (rule Cons.IH)
    also have "\<dots> = Max (insert m (set ts \<union> \<Union> (tempo_set ` set ss)))"
    proof -
      have "Max (insert ?m' (\<Union> (tempo_set ` set ss)))
              = Max (insert m (set ts) \<union> \<Union> (tempo_set ` set ss))"
      proof (cases "\<Union> (tempo_set ` set ss) = {}")
        case True
        then show ?thesis using m' by simp
      next
        case False
        have "Max (insert ?m' (\<Union> (tempo_set ` set ss)))
                = max (Max (insert m (set ts))) (Max (\<Union> (tempo_set ` set ss)))"
          unfolding m' using fin False by (rule Max_insert)
        also have "\<dots> = Max (insert m (set ts) \<union> \<Union> (tempo_set ` set ss))"
          using fin False by (intro Max_Un [symmetric]) simp_all
        finally show ?thesis .
      qed
      then show ?thesis by simp
    qed
    finally show ?thesis
      using Some by (simp add: tempo_set_def)
  qed
qed

lemma finite_all_tempos: "finite (all_tempos c)"
  by (simp add: all_tempos_def finite_tempo_set split: option.split)

lemma maxTempo_eq: "maxTempo c = Max (insert 0 (all_tempos c))"
  by (simp add: maxTempo_def all_tempos_def fold_maxTempo split: option.split)

text \<open>
  C9. For a card whose recorded tempos are not negative (the data model has them positive),
  the max tempo is the greatest of all tempos of all its sessions, and 0 when there is
  none: no sessions, or sessions without tempos.
\<close>

theorem maxTempo_is_maximum:
  assumes "\<forall>t\<in>all_tempos c. 0 \<le> t"
  shows "maxTempo c = (if all_tempos c = {} then 0 else Max (all_tempos c))"
proof (cases "all_tempos c = {}")
  case True
  then show ?thesis by (simp add: maxTempo_eq)
next
  case False
  then have "0 \<le> Max (all_tempos c)"
    using assms finite_all_tempos [of c] by (meson Max_in)
  then show ?thesis
    using False finite_all_tempos [of c] by (simp add: maxTempo_eq)
qed

text \<open>C9 on the tempos \<open>[[100, 120], [90], []]\<close>, and on the sample card, which has no session.\<close>

theorem maxTempo_is_maximum_witness:
  "all_tempos (demo_card\<lparr>sessions :=
        Some [demo_session [100, 120], demo_session [90], demo_session []]\<rparr>) = {100, 120, 90}
   \<and> maxTempo (demo_card\<lparr>sessions :=
        Some [demo_session [100, 120], demo_session [90], demo_session []]\<rparr>) = 120
   \<and> maxTempo demo_card = 0"
proof -
  let ?c = "demo_card\<lparr>sessions :=
        Some [demo_session [100, 120], demo_session [90], demo_session []]\<rparr>"
  have A: "all_tempos ?c = {100, 120, 90}"
    by (auto simp: all_tempos_def tempo_set_def demo_session_def)
  have B: "all_tempos demo_card = {}"
    by (simp add: all_tempos_def demo_card_def)
  have h: "\<forall>t\<in>all_tempos ?c. 0 \<le> t" by (simp add: A)
  have h0: "\<forall>t\<in>all_tempos demo_card. 0 \<le> t" by (simp add: B)
  show ?thesis
    using maxTempo_is_maximum [OF h] maxTempo_is_maximum [OF h0] by (simp add: A B)
qed

end
